theory Spec2Isabelle
  imports Complex_Main
begin

section \<open>The data model of App.tsx\<close>

text \<open>
  \<^verbatim>\<open>interface DataPoint { x: number; y: number; cluster?: number; }\<close>
  The optional field is an \<open>int option\<close>: \<open>None\<close> is the absent (or \<open>undefined\<close>)
  label. The record is extensible, and \<open>runClustering\<close> is typed on the record scheme:
  whatever further fields an element carries are copied by the spread \<^verbatim>\<open>...d\<close> as the
  \<open>more\<close> part. The coordinates are JavaScript numbers; \<open>runClustering\<close> copies them
  and hands them to the imported routines, it computes nothing with them.
\<close>

record DataPoint =
  x :: real
  y :: real
  cluster :: "int option"

text \<open>
  The React state of the component \<open>App\<close> that the clustering code reads or writes
  (\<^verbatim>\<open>useState\<close>, lines 14 to 20). \<open>error\<close> is \<^verbatim>\<open>string | null\<close>. The three numeric
  parameters are passed to the imported routines as they are.
\<close>

record AppState =
  rawData :: "DataPoint list"
  clusteredData :: "DataPoint list"
  clusters :: int
  algorithm :: string
  epsilon :: real
  minPoints :: int
  error :: "string option"

section \<open>The two imported clustering routines\<close>

text \<open>
  \<open>KMeans\<close> (package ml-kmeans) and \<open>DBSCAN\<close> (package density-clustering) are
  imported, not defined, by App.tsx. The embedding of \<open>runClustering\<close> takes them as
  parameters: a call either throws (\<open>Inl\<close> of the thrown value) or returns.
  For \<^verbatim>\<open>new KMeans(points, k)\<close> the returned value is the array \<^verbatim>\<open>result.clusters\<close>;
  for \<^verbatim>\<open>new DBSCAN().run(points, epsilon, minPoints)\<close> it is the array of
  clusters, each an array of point indices. A point \<^verbatim>\<open>[d.x, d.y]\<close> is the list of
  its two coordinates. The third parameter reads \<^verbatim>\<open>err.message\<close> of a thrown value.
\<close>

type_synonym 'e KMeans_lib = "real list list \<Rightarrow> int \<Rightarrow> 'e + int list"

type_synonym 'e DBSCAN_lib = "real list list \<Rightarrow> real \<Rightarrow> int \<Rightarrow> 'e + nat list list"

section \<open>Array operations of JavaScript used by \<open>runClustering\<close>\<close>

text \<open>\<^verbatim>\<open>xs.map((d, i) => f(d, i))\<close>: the callback gets the element and its index.\<close>

definition mapi :: "('a \<Rightarrow> nat \<Rightarrow> 'b) \<Rightarrow> 'a list \<Rightarrow> 'b list" where
  "mapi f xs = map (\<lambda>(d, i). f d i) (zip xs [0..<length xs])"

text \<open>\<^verbatim>\<open>xs[i]\<close>: reading past the end of an array gives \<open>undefined\<close>, it does not throw.\<close>

definition index_read :: "'a list \<Rightarrow> nat \<Rightarrow> 'a option" where
  "index_read xs i = (if i < length xs then Some (xs ! i) else None)"

text \<open>\<^verbatim>\<open>c.includes(i)\<close>\<close>

definition array_includes :: "'a list \<Rightarrow> 'a \<Rightarrow> bool" where
  "array_includes c i = (i \<in> set c)"

text \<open>
  \<^verbatim>\<open>xs.findIndex(p)\<close>: the index of the first element that satisfies \<open>p\<close>, and
  \<open>-1\<close> when there is none. \<^verbatim>\<open>xs.find(p)\<close> is \<^const>\<open>List.find\<close>, with
  \<open>None\<close> for \<open>undefined\<close>.
\<close>

fun findIndexFrom :: "('a \<Rightarrow> bool) \<Rightarrow> int \<Rightarrow> 'a list \<Rightarrow> int" where
  "findIndexFrom p k [] = -1"
| "findIndexFrom p k (a # as) = (if p a then k else findIndexFrom p (k + 1) as)"

definition findIndex :: "('a \<Rightarrow> bool) \<Rightarrow> 'a list \<Rightarrow> int" where
  "findIndex p xs = findIndexFrom p 0 xs"

section \<open>\<open>runClustering\<close> (App.tsx, lines 31 to 53)\<close>

text \<open>
  The label that line 45 computes for the point of index \<open>i\<close>:
  \<^verbatim>\<open>clusters.find(c => c.includes(i)) ? clusters.findIndex(c => c.includes(i)) : -1\<close>.
  The value of \<open>find\<close> is an array (always truthy) or \<open>undefined\<close>.
\<close>

definition dbscanLabel :: "nat list list \<Rightarrow> nat \<Rightarrow> int" where
  "dbscanLabel cs i =
     (if List.find (\<lambda>c. array_includes c i) cs \<noteq> None
      then findIndex (\<lambda>c. array_includes c i) cs
      else -1)"

text \<open>
  The function returns the array to display; \<open>setError\<close> in the \<open>catch\<close> block is the
  only write to the state, so the state is passed in and returned. \<open>algorithm\<close>,
  \<open>epsilon\<close> and \<open>minPoints\<close> are read from the state (the closure of \<open>useCallback\<close>).
\<close>

definition catchError :: "('e \<Rightarrow> string) \<Rightarrow> 'e \<Rightarrow> 'm AppState_scheme \<Rightarrow> 'm AppState_scheme" where
  "catchError message err st =
     st\<lparr>error := Some (''Error running clustering algorithm: '' @ message err)\<rparr>"

definition runClustering ::
  "('e \<Rightarrow> string) \<Rightarrow> 'e KMeans_lib \<Rightarrow> 'e DBSCAN_lib \<Rightarrow> 'm AppState_scheme \<Rightarrow>
     'p DataPoint_scheme list \<Rightarrow> int \<Rightarrow> 'p DataPoint_scheme list \<times> 'm AppState_scheme" where
  "runClustering message KMeans DBSCAN_run st data clusterCount =
     (if algorithm st = ''kmeans'' then
        (case KMeans (map (\<lambda>d. [x d, y d]) data) clusterCount of
           Inl err \<Rightarrow> (data, catchError message err st)
         | Inr result_clusters \<Rightarrow>
             (mapi (\<lambda>d i. d\<lparr>cluster := index_read result_clusters i\<rparr>) data, st))
      else if algorithm st = ''dbscan'' then
        (case DBSCAN_run (map (\<lambda>d. [x d, y d]) data) (epsilon st) (minPoints st) of
           Inl err \<Rightarrow> (data, catchError message err st)
         | Inr cs \<Rightarrow>
             (mapi (\<lambda>d i. d\<lparr>cluster := Some (dbscanLabel cs i)\<rparr>) data, st))
      else (data, st))"

text \<open>
  The effect of lines 59 to 64: when there are points, cluster them and display the
  result.
\<close>

definition clusteringEffect ::
  "('e \<Rightarrow> string) \<Rightarrow> 'e KMeans_lib \<Rightarrow> 'e DBSCAN_lib \<Rightarrow> 'm AppState_scheme \<Rightarrow> 'm AppState_scheme" where
  "clusteringEffect message KMeans DBSCAN_run st =
     (if length (rawData st) > 0 then
        (case runClustering message KMeans DBSCAN_run st (rawData st) (clusters st) of
           (newClusteredData, st') \<Rightarrow> st'\<lparr>clusteredData := newClusteredData\<rparr>)
      else st)"

section \<open>The clustering engine of the specification\<close>

text \<open>
  App.tsx holds no clustering algorithm of its own: both are calls into imported
  packages, whose code is not under src/. The definitions of this section are modelled
  from the specification (sections 3, 4.1, 4.2, 6 and 7) and are marked as such one by
  one.
\<close>

subsection \<open>Data model and errors\<close>

text \<open>
  Modelled from the spec: the data model of section 3, missing from src/ (App.tsx has
  only \<open>DataPoint\<close>). A point is a pair of real coordinates, identified by its index
  in the input sequence.
\<close>

type_synonym Point = "real \<times> real"

text \<open>
  Modelled from the spec: the label of section 3, missing from src/: a non-negative
  cluster index, or the distinguished noise marker.
\<close>

datatype ClusterAssignment = Cluster nat | Noise

text \<open>Modelled from the spec: the error taxonomy of section 7, missing from src/.\<close>

datatype ClusteringError = InvalidParameter | EmptyInput

text \<open>
  Modelled from the spec: the Euclidean distance of sections 4.1 and 4.2 (the shared
  geometry utility of section 2), missing from src/.
\<close>

definition euclideanDistance :: "Point \<Rightarrow> Point \<Rightarrow> real" where
  "euclideanDistance p q = sqrt ((fst p - fst q)\<^sup>2 + (snd p - snd q)\<^sup>2)"

subsection \<open>DbscanClusterer (section 4.2)\<close>

text \<open>
  Modelled from the spec: "within Euclidean distance epsilon" of step 2a, missing from
  src/. The code equation compares squares, so that the test can be evaluated.
\<close>

definition withinDistance :: "real \<Rightarrow> Point \<Rightarrow> Point \<Rightarrow> bool" where
  "withinDistance eps p q = (euclideanDistance p q \<le> eps)"

lemma withinDistance_code [code]:
  "withinDistance eps p q =
     (0 \<le> eps \<and> (fst p - fst q)\<^sup>2 + (snd p - snd q)\<^sup>2 \<le> eps\<^sup>2)"
proof (cases "0 \<le> eps")
  case True
  then have "(sqrt ((fst p - fst q)\<^sup>2 + (snd p - snd q)\<^sup>2) \<le> eps) =
             ((fst p - fst q)\<^sup>2 + (snd p - snd q)\<^sup>2 \<le> eps\<^sup>2)"
    by (metis real_sqrt_le_iff real_sqrt_abs abs_of_nonneg)
  with True show ?thesis
    by (simp add: withinDistance_def euclideanDistance_def)
next
  case False
  have "0 \<le> sqrt ((fst p - fst q)\<^sup>2 + (snd p - snd q)\<^sup>2)"
    by simp
  with False have "\<not> sqrt ((fst p - fst q)\<^sup>2 + (snd p - snd q)\<^sup>2) \<le> eps"
    by linarith
  with False show ?thesis
    by (simp add: withinDistance_def euclideanDistance_def)
qed

text \<open>
  Modelled from the spec: the epsilon-neighborhood of step 2a, missing from src/: the
  indices, in input order, of all points (the point itself included) within Euclidean
  distance \<open>eps\<close> of the point of index \<open>p\<close>.
\<close>

definition neighborhood :: "Point list \<Rightarrow> real \<Rightarrow> nat \<Rightarrow> nat list" where
  "neighborhood points eps p =
     filter (\<lambda>q. withinDistance eps (points ! p) (points ! q)) [0..<length points]"

text \<open>
  Modelled from the spec: the core point of the glossary and of steps 2b and 2c, missing
  from src/: its neighborhood has at least \<open>minPoints\<close> points.
\<close>

definition corePoint :: "Point list \<Rightarrow> real \<Rightarrow> int \<Rightarrow> nat \<Rightarrow> bool" where
  "corePoint points eps minPts p = (minPts \<le> int (length (neighborhood points eps p)))"

text \<open>
  Modelled from the spec: the marks of steps 1, 2b and 2c, missing from src/: every
  point starts unvisited, is marked noise tentatively, or is assigned to a cluster.
\<close>

datatype Mark = Unvisited | TentativeNoise | Assigned nat

text \<open>
  Modelled from the spec: "already assigned to a cluster" of step 2c, missing from
  src/. A point marked noise is not assigned: a cluster may reclaim it.
\<close>

fun inCluster :: "Mark \<Rightarrow> bool" where
  "inCluster (Assigned c) = True"
| "inCluster m = False"

text \<open>
  Modelled from the spec: "add its neighborhood members to the cluster" of step 2c,
  missing from src/. The marks are a function from point indices.
\<close>

definition assignAll :: "nat \<Rightarrow> nat list \<Rightarrow> (nat \<Rightarrow> Mark) \<Rightarrow> (nat \<Rightarrow> Mark)" where
  "assignAll c qs marks = fold (\<lambda>q m. m(q := Assigned c)) qs marks"

text \<open>
  The points not yet in a cluster: the expansion below terminates because every round
  that adds points makes this set smaller.
\<close>

definition unassigned :: "Point list \<Rightarrow> (nat \<Rightarrow> Mark) \<Rightarrow> nat set" where
  "unassigned points marks = {q. q < length points \<and> \<not> inCluster (marks q)}"

lemma assignAll_apply:
  "assignAll c qs marks q = (if q \<in> set qs then Assigned c else marks q)"
  unfolding assignAll_def by (induction qs arbitrary: marks) auto

lemma neighborhood_bound: "q \<in> set (neighborhood points eps p) \<Longrightarrow> q < length points"
  by (simp add: neighborhood_def)

lemma unassigned_assignAll:
  assumes "new = filter (\<lambda>r. \<not> inCluster (marks r)) (neighborhood points eps q)" and "new \<noteq> []"
  shows "card (unassigned points (assignAll c new marks)) < card (unassigned points marks)"
proof -
  from assms(2) have "hd new \<in> set new" by simp
  then obtain r where r: "r \<in> set new" ..
  with assms(1) have r_in: "r \<in> unassigned points marks"
    by (auto simp: unassigned_def dest: neighborhood_bound)
  have "r \<notin> unassigned points (assignAll c new marks)"
    using r by (simp add: unassigned_def assignAll_apply)
  moreover have "unassigned points (assignAll c new marks) \<subseteq> unassigned points marks"
    by (auto simp: unassigned_def assignAll_apply split: if_splits)
  ultimately have "unassigned points (assignAll c new marks) \<subset> unassigned points marks"
    using r_in by blast
  moreover have "finite (unassigned points marks)"
    by (simp add: unassigned_def)
  ultimately show ?thesis
    by (rule psubset_card_mono [rotated])
qed

text \<open>
  Modelled from the spec: the breadth-first expansion of step 2c, missing from src/.
  The queue holds the points newly added to cluster \<open>c\<close>. A core point of the queue
  adds the members of its neighborhood that are in no cluster yet, and they join the
  end of the queue; a point that is not a core point is a border point and is not
  expanded.
\<close>

function expand ::
  "Point list \<Rightarrow> real \<Rightarrow> int \<Rightarrow> nat \<Rightarrow> nat list \<Rightarrow> (nat \<Rightarrow> Mark) \<Rightarrow> (nat \<Rightarrow> Mark)" where
  "expand points eps minPts c [] marks = marks"
| "expand points eps minPts c (q # queue) marks =
     (if corePoint points eps minPts q
      then (let new = filter (\<lambda>r. \<not> inCluster (marks r)) (neighborhood points eps q)
            in expand points eps minPts c (queue @ new) (assignAll c new marks))
      else expand points eps minPts c queue marks)"
  by pat_completeness auto
termination
proof (relation "measures [\<lambda>(points, eps, minPts, c, queue, marks). card (unassigned points marks),
                           \<lambda>(points, eps, minPts, c, queue, marks). length queue]")
  show "wf (measures [\<lambda>(points, eps, minPts, c, queue, marks). card (unassigned points marks),
                      \<lambda>(points, eps, minPts, c, queue, marks). length queue])"
    by simp
next
  fix points :: "Point list" and eps :: real and minPts :: int and c q :: nat
    and queue new :: "nat list" and marks :: "nat \<Rightarrow> Mark"
  assume "corePoint points eps minPts q"
    and new: "new = filter (\<lambda>r. \<not> inCluster (marks r)) (neighborhood points eps q)"
  show "((points, eps, minPts, c, queue @ new, assignAll c new marks),
         (points, eps, minPts, c, q # queue, marks))
        \<in> measures [\<lambda>(points, eps, minPts, c, queue, marks). card (unassigned points marks),
                     \<lambda>(points, eps, minPts, c, queue, marks). length queue]"
  proof (cases "new = []")
    case True
    then show ?thesis by (simp add: assignAll_def)
  next
    case False
    with unassigned_assignAll [OF new False, of c] show ?thesis by simp
  qed
next
  fix points :: "Point list" and eps :: real and minPts :: int and c q :: nat
    and queue :: "nat list" and marks :: "nat \<Rightarrow> Mark"
  show "((points, eps, minPts, c, queue, marks), (points, eps, minPts, c, q # queue, marks))
        \<in> measures [\<lambda>(points, eps, minPts, c, queue, marks). card (unassigned points marks),
                     \<lambda>(points, eps, minPts, c, queue, marks). length queue]"
    by simp
qed

text \<open>
  Modelled from the spec: the scan of step 2, missing from src/: for each point that is
  still unvisited, in input order, either mark it noise tentatively (2b) or start the
  cluster of the next index \<open>c\<close> with it and expand (2c).
\<close>

fun scan ::
  "Point list \<Rightarrow> real \<Rightarrow> int \<Rightarrow> nat list \<Rightarrow> nat \<Rightarrow> (nat \<Rightarrow> Mark) \<Rightarrow> (nat \<Rightarrow> Mark)" where
  "scan points eps minPts [] c marks = marks"
| "scan points eps minPts (p # ps) c marks =
     (if marks p \<noteq> Unvisited then scan points eps minPts ps c marks
      else if \<not> corePoint points eps minPts p
        then scan points eps minPts ps c (marks(p := TentativeNoise))
      else scan points eps minPts ps (c + 1)
             (expand points eps minPts c [p] (marks(p := Assigned c))))"

text \<open>
  Modelled from the spec: the terminal labeling of step 3, missing from src/: a point
  never absorbed into a cluster is noise.
\<close>

fun terminalLabel :: "Mark \<Rightarrow> ClusterAssignment" where
  "terminalLabel (Assigned c) = Cluster c"
| "terminalLabel m = Noise"

text \<open>
  Modelled from the spec: the entry point \<open>runDbscan(points, epsilon, minPoints)\<close> of
  sections 4.2 and 6, missing from src/ (App.tsx calls the imported \<open>DBSCAN\<close> instead):
  the contract check, then steps 1 to 3.
\<close>

definition runDbscan :: "Point list \<Rightarrow> real \<Rightarrow> int \<Rightarrow> ClusteringError + ClusterAssignment list" where
  "runDbscan points eps minPts =
     (if eps \<le> 0 \<or> minPts < 1 then Inl InvalidParameter
      else Inr (map (\<lambda>i. terminalLabel
                           (scan points eps minPts [0..<length points] 0 (\<lambda>i. Unvisited) i))
                  [0..<length points]))"

subsection \<open>The runs of DBSCAN\<close>

text \<open>
  Modelled from the spec: the expansion of step 2c as a relation, missing from src/. A
  neighborhood is a set of points, and step 2c does not say in which order its members
  join the cluster and the queue: the relation has a run for every order (\<open>new\<close> is
  any list of the members not yet in a cluster, each once). The function \<open>expand\<close> is
  the run that takes them in input order.
\<close>

inductive expandsTo ::
  "Point list \<Rightarrow> real \<Rightarrow> int \<Rightarrow> nat \<Rightarrow> nat list \<Rightarrow> (nat \<Rightarrow> Mark) \<Rightarrow> (nat \<Rightarrow> Mark) \<Rightarrow> bool"
  for points eps minPts c where
  finished: "expandsTo points eps minPts c [] marks marks"
| border: "\<not> corePoint points eps minPts q \<Longrightarrow>
     expandsTo points eps minPts c queue marks result \<Longrightarrow>
     expandsTo points eps minPts c (q # queue) marks result"
| core: "corePoint points eps minPts q \<Longrightarrow>
     distinct new \<Longrightarrow>
     set new = {r \<in> set (neighborhood points eps q). \<not> inCluster (marks r)} \<Longrightarrow>
     expandsTo points eps minPts c (queue @ new) (assignAll c new marks) result \<Longrightarrow>
     expandsTo points eps minPts c (q # queue) marks result"

text \<open>
  Modelled from the spec: the scan of step 2 as a relation over the runs of the
  expansion, missing from src/. The points are visited in input order, as step 2 says.
\<close>

inductive scansTo ::
  "Point list \<Rightarrow> real \<Rightarrow> int \<Rightarrow> nat list \<Rightarrow> nat \<Rightarrow> (nat \<Rightarrow> Mark) \<Rightarrow> (nat \<Rightarrow> Mark) \<Rightarrow> bool"
  for points eps minPts where
  scanned: "scansTo points eps minPts [] c marks marks"
| visited: "marks p \<noteq> Unvisited \<Longrightarrow>
     scansTo points eps minPts ps c marks result \<Longrightarrow>
     scansTo points eps minPts (p # ps) c marks result"
| noise: "marks p = Unvisited \<Longrightarrow> \<not> corePoint points eps minPts p \<Longrightarrow>
     scansTo points eps minPts ps c (marks(p := TentativeNoise)) result \<Longrightarrow>
     scansTo points eps minPts (p # ps) c marks result"
| cluster: "marks p = Unvisited \<Longrightarrow> corePoint points eps minPts p \<Longrightarrow>
     expandsTo points eps minPts c [p] (marks(p := Assigned c)) marks' \<Longrightarrow>
     scansTo points eps minPts ps (c + 1) marks' result \<Longrightarrow>
     scansTo points eps minPts (p # ps) c marks result"

text \<open>
  Modelled from the spec: a run of DBSCAN on valid parameters and the assignments it
  returns (steps 1 to 3), missing from src/.
\<close>

inductive dbscanRun :: "Point list \<Rightarrow> real \<Rightarrow> int \<Rightarrow> ClusterAssignment list \<Rightarrow> bool" where
  "0 < eps \<Longrightarrow> 1 \<le> minPts \<Longrightarrow>
   scansTo points eps minPts [0..<length points] 0 (\<lambda>i. Unvisited) marks \<Longrightarrow>
   dbscanRun points eps minPts (map (\<lambda>i. terminalLabel (marks i)) [0..<length points])"

text \<open>
  The points that an expansion adds to its cluster: those outside the set \<open>A\<close> of the
  points already in a cluster that a chain of core points, each in the neighborhood of
  the one before, links to a core point of the queue \<open>Q\<close>.
\<close>

inductive_set reached :: "Point list \<Rightarrow> real \<Rightarrow> int \<Rightarrow> nat set \<Rightarrow> nat set \<Rightarrow> nat set"
  for points eps minPts Q A where
  from_queue: "q \<in> Q \<Longrightarrow> corePoint points eps minPts q \<Longrightarrow>
     i \<in> set (neighborhood points eps q) \<Longrightarrow> i \<notin> A \<Longrightarrow> i \<in> reached points eps minPts Q A"
| from_reached: "j \<in> reached points eps minPts Q A \<Longrightarrow> corePoint points eps minPts j \<Longrightarrow>
     i \<in> set (neighborhood points eps j) \<Longrightarrow> i \<notin> A \<Longrightarrow> i \<in> reached points eps minPts Q A"

subsection \<open>KMeansClusterer (section 4.1)\<close>

text \<open>Modelled from the spec: the centroid of section 3, missing from src/.\<close>

type_synonym Centroid = Point

text \<open>
  Modelled from the spec: the comparison of two Euclidean distances in the assignment
  step 2a, missing from src/. The code equation compares the squares.
\<close>

definition closer :: "Point \<Rightarrow> Centroid \<Rightarrow> Centroid \<Rightarrow> bool" where
  "closer p c c' = (euclideanDistance p c < euclideanDistance p c')"

lemma closer_code [code]:
  "closer p c c' =
     ((fst p - fst c)\<^sup>2 + (snd p - snd c)\<^sup>2 < (fst p - fst c')\<^sup>2 + (snd p - snd c')\<^sup>2)"
  by (simp add: closer_def euclideanDistance_def)

text \<open>
  Modelled from the spec: the centroid of minimum distance of step 2a, missing from
  src/. The centroids are tried in index order and a later one wins only when strictly
  closer, so ties go to the lowest index.
\<close>

fun nearestFrom :: "Point \<Rightarrow> Centroid list \<Rightarrow> nat \<Rightarrow> nat \<Rightarrow> Centroid \<Rightarrow> nat" where
  "nearestFrom p [] j best bestCentroid = best"
| "nearestFrom p (c # cs) j best bestCentroid =
     (if closer p c bestCentroid then nearestFrom p cs (Suc j) j c
      else nearestFrom p cs (Suc j) best bestCentroid)"

text \<open>Modelled from the spec: the label of one point in step 2a, missing from src/.\<close>

definition nearestCentroid :: "Centroid list \<Rightarrow> Point \<Rightarrow> nat" where
  "nearestCentroid centroids p =
     (case centroids of [] \<Rightarrow> 0 | c # cs \<Rightarrow> nearestFrom p cs 1 0 c)"

text \<open>Modelled from the spec: the assignment step 2a, missing from src/.\<close>

definition assignmentStep :: "Point list \<Rightarrow> Centroid list \<Rightarrow> nat list" where
  "assignmentStep points centroids = map (nearestCentroid centroids) points"

text \<open>
  Modelled from the spec: the points assigned to the centroid of index \<open>j\<close> (step 2b),
  missing from src/.
\<close>

definition members :: "Point list \<Rightarrow> nat list \<Rightarrow> nat \<Rightarrow> Point list" where
  "members points labels j = map fst (filter (\<lambda>(p, l). l = j) (zip points labels))"

text \<open>Modelled from the spec: the coordinate-wise mean of step 2b, missing from src/.\<close>

definition mean :: "Point list \<Rightarrow> Point" where
  "mean ps = (sum_list (map fst ps) / real (length ps), sum_list (map snd ps) / real (length ps))"

text \<open>
  Modelled from the spec: the update step 2b, missing from src/: a centroid with no
  assigned point keeps its position.
\<close>

definition updateStep :: "Point list \<Rightarrow> nat list \<Rightarrow> Centroid list \<Rightarrow> Centroid list" where
  "updateStep points labels centroids =
     map (\<lambda>(j, c). if members points labels j = [] then c else mean (members points labels j))
       (zip [0..<length centroids] centroids)"

text \<open>
  Modelled from the spec: the "small epsilon (e.g. 1e-6)" of the convergence test 2c,
  missing from src/.
\<close>

definition displacementTolerance :: real where
  "displacementTolerance = 1 / 1000000"

text \<open>
  Modelled from the spec: the displacement of one centroid is below the tolerance (step
  2c), missing from src/. The code equation compares the squares.
\<close>

definition displacementBelow :: "real \<Rightarrow> Centroid \<Rightarrow> Centroid \<Rightarrow> bool" where
  "displacementBelow tol c c' = (euclideanDistance c c' < tol)"

lemma displacementBelow_code [code]:
  "displacementBelow tol c c' =
     (0 < tol \<and> (fst c - fst c')\<^sup>2 + (snd c - snd c')\<^sup>2 < tol\<^sup>2)"
proof (cases "0 < tol")
  case True
  then have "(sqrt ((fst c - fst c')\<^sup>2 + (snd c - snd c')\<^sup>2) < tol) =
             ((fst c - fst c')\<^sup>2 + (snd c - snd c')\<^sup>2 < tol\<^sup>2)"
    by (metis real_sqrt_less_iff real_sqrt_abs abs_of_pos)
  with True show ?thesis
    by (simp add: displacementBelow_def euclideanDistance_def)
next
  case False
  have "0 \<le> sqrt ((fst c - fst c')\<^sup>2 + (snd c - snd c')\<^sup>2)"
    by simp
  with False have "\<not> sqrt ((fst c - fst c')\<^sup>2 + (snd c - snd c')\<^sup>2) < tol"
    by linarith
  with False show ?thesis
    by (simp add: displacementBelow_def euclideanDistance_def)
qed

text \<open>
  Modelled from the spec: the convergence test 2c, missing from src/: no point changed
  its cluster since the previous iteration, or the largest centroid displacement (so,
  every displacement) is below the tolerance.
\<close>

definition converged ::
  "nat list option \<Rightarrow> nat list \<Rightarrow> Centroid list \<Rightarrow> Centroid list \<Rightarrow> bool" where
  "converged previous labels centroids centroids' =
     (previous = Some labels \<or>
      list_all (\<lambda>(c, c'). displacementBelow displacementTolerance c c') (zip centroids centroids'))"

text \<open>
  Modelled from the spec: the loop of step 2 and the result of step 3, missing from
  src/. The first argument counts the iterations that may follow the current one; the
  last permitted iteration returns its assignments whatever the convergence test says.
\<close>

fun lloyd :: "nat \<Rightarrow> Point list \<Rightarrow> Centroid list \<Rightarrow> nat list option \<Rightarrow> nat list" where
  "lloyd 0 points centroids previous = assignmentStep points centroids"
| "lloyd (Suc n) points centroids previous =
     (let labels = assignmentStep points centroids;
          centroids' = updateStep points labels centroids
      in if converged previous labels centroids centroids' then labels
         else lloyd n points centroids' (Some labels))"

text \<open>Modelled from the spec: the default iteration bound of step 2, missing from src/.\<close>

definition maxIterations :: nat where
  "maxIterations = 100"

text \<open>
  Modelled from the spec: the initialization of step 1, missing from src/: \<open>k\<close> elements
  of the pool at distinct positions, drawn without replacement. The random source is the
  explicit seeded parameter that section 9 asks for: \<open>draw seed bound\<close> gives the next
  seed and a number, which is reduced below the bound.
\<close>

fun chooseDistinct :: "('s \<Rightarrow> nat \<Rightarrow> 's \<times> nat) \<Rightarrow> 's \<Rightarrow> 'a list \<Rightarrow> nat \<Rightarrow> 'a list" where
  "chooseDistinct draw seed pool 0 = []"
| "chooseDistinct draw seed [] (Suc k) = []"
| "chooseDistinct draw seed (a # as) (Suc k) =
     (case draw seed (length (a # as)) of
        (seed', r) \<Rightarrow>
          (a # as) ! (r mod length (a # as)) #
          chooseDistinct draw seed'
            (take (r mod length (a # as)) (a # as) @ drop (Suc (r mod length (a # as))) (a # as)) k)"

text \<open>
  Modelled from the spec: the two failures of the contract of section 4.1, missing from
  src/: "Fails with InvalidParameter if k < 1 or k > points.length. Fails with EmptyInput
  if points is empty." The two conditions overlap on the empty sequence and the spec
  states no order between them, so none is chosen here: the value is the set of the
  failures that the contract names for the input.
\<close>

definition kmeansFailures :: "Point list \<Rightarrow> int \<Rightarrow> ClusteringError set" where
  "kmeansFailures points k =
     (if k < 1 \<or> int (length points) < k then {InvalidParameter} else {}) \<union>
     (if points = [] then {EmptyInput} else {})"

text \<open>
  Modelled from the spec: the entry point \<open>runKMeans(points, k)\<close> of sections 4.1 and 6,
  with the seeded random source, missing from src/ (App.tsx calls the imported \<open>KMeans\<close>
  instead). A call that the contract rejects returns the failures and no assignment;
  any other call runs steps 1 to 3.
\<close>

definition runKMeans ::
  "('s \<Rightarrow> nat \<Rightarrow> 's \<times> nat) \<Rightarrow> 's \<Rightarrow> Point list \<Rightarrow> int \<Rightarrow>
     ClusteringError set + ClusterAssignment list" where
  "runKMeans draw seed points k =
     (if k < 1 \<or> int (length points) < k \<or> points = [] then Inl (kmeansFailures points k)
      else Inr (map Cluster
             (lloyd (maxIterations - 1) points (chooseDistinct draw seed points (nat k)) None)))"

section \<open>Concrete inputs\<close>

text \<open>
  The state that the \<^verbatim>\<open>useState\<close> calls of lines 14 to 20 start from, and the four
  points of the concrete scenario. They instantiate the theorems below.
\<close>

definition initialState :: AppState where
  "initialState =
     \<lparr>rawData = [], clusteredData = [], clusters = 3, algorithm = ''kmeans'',
      epsilon = 50, minPoints = 3, error = None\<rparr>"

definition fourPoints :: "DataPoint list" where
  "fourPoints =
     [\<lparr>x = 0, y = 0, cluster = None\<rparr>, \<lparr>x = 0, y = 1, cluster = None\<rparr>,
      \<lparr>x = 10, y = 10, cluster = None\<rparr>, \<lparr>x = 10, y = 11, cluster = None\<rparr>]"

text \<open>
  Stand-ins for the two imported routines, for the concrete instances only (every
  theorem below is about arbitrary routines): a K-means that throws when \<open>k\<close> is not
  between 1 and the number of points and otherwise puts every point into cluster 0,
  and a DBSCAN that throws when \<open>epsilon\<close> is not positive and otherwise returns the two
  clusters of the first two and the next two points.
\<close>

definition sampleKMeans :: "string KMeans_lib" where
  "sampleKMeans points k =
     (if k < 1 \<or> int (length points) < k
      then Inl ''K should be a positive integer smaller than the number of points''
      else Inr (replicate (length points) 0))"

definition sampleDBSCAN :: "string DBSCAN_lib" where
  "sampleDBSCAN points eps minPts =
     (if eps \<le> 0 then Inl ''epsilon must be positive'' else Inr [[0, 1], [2, 3]])"

text \<open>
  The state after the effect has clustered the four points with \<open>k = 2\<close>: every
  point is displayed with a label.
\<close>

definition labelledState :: AppState where
  "labelledState =
     clusteringEffect id sampleKMeans sampleDBSCAN (initialState\<lparr>rawData := fourPoints, clusters := 2\<rparr>)"

text \<open>
  A random source for the concrete instances of K-means: a small linear congruential
  generator.
\<close>

definition sampleDraw :: "nat \<Rightarrow> nat \<Rightarrow> nat \<times> nat" where
  "sampleDraw seed bound = ((7 * seed + 3) mod 11, seed)"

section \<open>Properties of \<open>runClustering\<close>\<close>

lemma length_mapi: "length (mapi f xs) = length xs"
  by (simp add: mapi_def)

lemma nth_mapi: "i < length xs \<Longrightarrow> mapi f xs ! i = f (xs ! i) i"
  by (simp add: mapi_def)

lemma map_mapi: "map g (mapi f xs) = mapi (\<lambda>d i. g (f d i)) xs"
  by (simp add: mapi_def case_prod_unfold comp_def)

lemma mapi_ignore_index: "mapi (\<lambda>d i. g d) xs = map g xs"
  by (rule nth_equalityI) (simp_all add: length_mapi nth_mapi)

text \<open>
  C9. For every data array and every algorithm selector other than 'kmeans' and
  'dbscan', \<open>runClustering\<close> returns the input array unchanged: no label is attached,
  and the state, with its error field, is left as it was.
\<close>

theorem runClustering_unrecognized:
  assumes "algorithm st \<noteq> ''kmeans''" and "algorithm st \<noteq> ''dbscan''"
  shows "runClustering message KMeans DBSCAN_run st data clusterCount = (data, st)"
  using assms by (simp add: runClustering_def)

theorem runClustering_unrecognized_witness:
  "runClustering id sampleKMeans sampleDBSCAN (initialState\<lparr>algorithm := ''spectral''\<rparr>)
     fourPoints 2 = (fourPoints, initialState\<lparr>algorithm := ''spectral''\<rparr>)"
  using runClustering_unrecognized
    [of "initialState\<lparr>algorithm := ''spectral''\<rparr>" id sampleKMeans sampleDBSCAN fourPoints 2]
  by (simp add: initialState_def)

text \<open>
  C10. In every branch of \<open>runClustering\<close> (K-means, DBSCAN, unrecognized algorithm,
  and the catch branch) the output and the input have the same x and the same y
  coordinates, index by index, and they differ in nothing but the cluster label:
  erasing the label on both sides gives the same array.
\<close>

theorem runClustering_frame:
  "map x (fst (runClustering message KMeans DBSCAN_run st data clusterCount)) = map x data \<and>
   map y (fst (runClustering message KMeans DBSCAN_run st data clusterCount)) = map y data \<and>
   map (\<lambda>d. d\<lparr>cluster := None\<rparr>)
       (fst (runClustering message KMeans DBSCAN_run st data clusterCount)) =
     map (\<lambda>d. d\<lparr>cluster := None\<rparr>) data"
  by (simp add: runClustering_def map_mapi mapi_ignore_index split: sum.split)

theorem runClustering_frame_witness:
  "map x (fst (runClustering id sampleKMeans sampleDBSCAN initialState fourPoints 2)) =
     [0, 0, 10, 10] \<and>
   map y (fst (runClustering id sampleKMeans sampleDBSCAN initialState fourPoints 2)) =
     [0, 1, 10, 11]"
  using runClustering_frame [of id sampleKMeans sampleDBSCAN initialState fourPoints 2]
  by (simp add: fourPoints_def)



subsection \<open>The labels of a DBSCAN run\<close>

lemma findIndexFrom_none: "\<forall>c\<in>set xs. \<not> p c \<Longrightarrow> findIndexFrom p k xs = -1"
  by (induction xs arbitrary: k) auto

lemma findIndexFrom_first:
  "\<exists>c\<in>set xs. p c \<Longrightarrow>
     \<exists>j<length xs. findIndexFrom p k xs = k + int j \<and> p (xs ! j) \<and> (\<forall>j'<j. \<not> p (xs ! j'))"
proof (induction xs arbitrary: k)
  case Nil
  then show ?case by simp
next
  case (Cons a as)
  show ?case
  proof (cases "p a")
    case True
    then have "findIndexFrom p k (a # as) = k + int 0 \<and> p ((a # as) ! 0) \<and> (\<forall>j'<0. \<not> p ((a # as) ! j'))"
      by simp
    then show ?thesis by blast
  next
    case False
    with Cons.prems have "\<exists>c\<in>set as. p c" by auto
    from Cons.IH [OF this, of "k + 1"] obtain j where j: "j < length as"
      "findIndexFrom p (k + 1) as = k + 1 + int j" "p (as ! j)" "\<forall>j'<j. \<not> p (as ! j')"
      by blast
    have "\<forall>j'<Suc j. \<not> p ((a # as) ! j')"
      using False j(4) by (auto simp: nth_Cons split: nat.split)
    with False j(1,2,3) have "Suc j < length (a # as) \<and> findIndexFrom p k (a # as) = k + int (Suc j) \<and> p ((a # as) ! Suc j) \<and> (\<forall>j'<Suc j. \<not> p ((a # as) ! j'))"
      by simp
    then show ?thesis by blast
  qed
qed

lemma dbscanLabel_cases:
  "(dbscanLabel cs i = -1 \<and> (\<forall>c\<in>set cs. i \<notin> set c)) \<or>
   (0 \<le> dbscanLabel cs i \<and> dbscanLabel cs i < int (length cs) \<and>
    i \<in> set (cs ! nat (dbscanLabel cs i)) \<and> (\<forall>j<nat (dbscanLabel cs i). i \<notin> set (cs ! j)))"
proof (cases "\<exists>c\<in>set cs. array_includes c i")
  case True
  from findIndexFrom_first [OF this, of 0] obtain j where j: "j < length cs"
    "findIndexFrom (\<lambda>c. array_includes c i) 0 cs = int j" "array_includes (cs ! j) i"
    "\<forall>j'<j. \<not> array_includes (cs ! j') i"
    by auto
  from True have "List.find (\<lambda>c. array_includes c i) cs \<noteq> None"
    by (auto simp: find_None_iff)
  then have "dbscanLabel cs i = int j"
    by (simp add: dbscanLabel_def findIndex_def j(2))
  with j show ?thesis
    by (simp add: array_includes_def)
next
  case False
  then have "List.find (\<lambda>c. array_includes c i) cs = None"
    by (auto simp: find_None_iff)
  then have "dbscanLabel cs i = -1"
    by (simp add: dbscanLabel_def)
  with False show ?thesis
    by (simp add: array_includes_def)
qed

text \<open>
  C5. When the imported DBSCAN routine returns its clusters \<open>cs\<close> (arrays of point
  indices), every point gets exactly one label, and that label is either \<open>-1\<close> (the
  noise marker, given exactly to the points that no cluster contains) or a cluster index
  in \<open>[0, length cs)\<close>: the index of the first cluster that contains the point. No
  point gets two labels, nor a cluster index together with the noise marker.
\<close>

theorem dbscan_labels:
  assumes "algorithm st = ''dbscan''"
    and "DBSCAN_run (map (\<lambda>d. [x d, y d]) data) (epsilon st) (minPoints st) = Inr cs"
    and "i < length data"
  shows "\<exists>!l. cluster (fst (runClustering message KMeans DBSCAN_run st data clusterCount) ! i) = Some l \<and>
           ((l = -1 \<and> (\<forall>c\<in>set cs. i \<notin> set c)) \<or>
            (0 \<le> l \<and> l < int (length cs) \<and> i \<in> set (cs ! nat l) \<and>
             (\<forall>j<nat l. i \<notin> set (cs ! j))))"
proof -
  have "cluster (fst (runClustering message KMeans DBSCAN_run st data clusterCount) ! i) =
          Some (dbscanLabel cs i)"
    using assms by (simp add: runClustering_def nth_mapi)
  with dbscanLabel_cases [of cs i] show ?thesis
    by auto
qed

theorem dbscan_labels_witness:
  "cluster (fst (runClustering id sampleKMeans sampleDBSCAN (initialState\<lparr>algorithm := ''dbscan''\<rparr>)
      fourPoints 3) ! 2) = Some 1"
proof -
  let ?st = "initialState\<lparr>algorithm := ''dbscan''\<rparr>"
  have a: "algorithm ?st = ''dbscan''" by simp
  have r: "sampleDBSCAN (map (\<lambda>d. [x d, y d]) fourPoints) (epsilon ?st) (minPoints ?st) = Inr [[0, 1], [2, 3]]"
    by (simp add: sampleDBSCAN_def initialState_def)
  have i: "2 < length fourPoints" by (simp add: fourPoints_def)
  from dbscan_labels [where st = ?st and DBSCAN_run = sampleDBSCAN and data = fourPoints
      and cs = "[[0, 1], [2, 3]]" and i = 2 and message = id and KMeans = sampleKMeans
      and clusterCount = 3, OF a r i]
  obtain l where l: "cluster (fst (runClustering id sampleKMeans sampleDBSCAN ?st fourPoints 3) ! 2) = Some l"
    and c: "(l = -1 \<and> (\<forall>c\<in>set [[0, 1], [2, 3::nat]]. 2 \<notin> set c)) \<or>
            (0 \<le> l \<and> l < int (length [[0, 1], [2, 3::nat]]) \<and> 2 \<in> set ([[0, 1], [2, 3::nat]] ! nat l) \<and>
             (\<forall>j<nat l. 2 \<notin> set ([[0, 1], [2, 3::nat]] ! j)))"
    by blast
  from c have "l = 0 \<or> l = 1" by auto
  with c have "l = 1" by auto
  with l show ?thesis by simp
qed

subsection \<open>A failed run\<close>

text \<open>
  C4, as amended. When the imported routine of the selected algorithm throws on the
  points to cluster, \<open>runClustering\<close> does not throw: it stores the message
  "Error running clustering algorithm: " followed by \<open>err.message\<close> in the error state
  and returns the input array itself, with no label of this run attached. The effect
  then displays that array: the clustered data becomes the raw input points.
\<close>

theorem failed_run_fallback:
  assumes "rawData st \<noteq> []"
    and "(algorithm st = ''kmeans'' \<and>
            KMeans (map (\<lambda>d. [x d, y d]) (rawData st)) (clusters st) = Inl err) \<or>
         (algorithm st = ''dbscan'' \<and>
            DBSCAN_run (map (\<lambda>d. [x d, y d]) (rawData st)) (epsilon st) (minPoints st) = Inl err)"
  shows "runClustering message KMeans DBSCAN_run st (rawData st) (clusters st) =
           (rawData st, st\<lparr>error := Some (''Error running clustering algorithm: '' @ message err)\<rparr>) \<and>
         clusteringEffect message KMeans DBSCAN_run st =
           st\<lparr>error := Some (''Error running clustering algorithm: '' @ message err),
              clusteredData := rawData st\<rparr>"
proof -
  from assms(2)
  have run: "runClustering message KMeans DBSCAN_run st (rawData st) (clusters st) =
           (rawData st, st\<lparr>error := Some (''Error running clustering algorithm: '' @ message err)\<rparr>)"
    by (auto simp: runClustering_def catchError_def)
  with assms(1) show ?thesis
    by (simp add: clusteringEffect_def)
qed

lemma labelledState_eq:
  "labelledState = initialState\<lparr>rawData := fourPoints, clusters := 2,
      clusteredData := map (\<lambda>d. d\<lparr>cluster := Some 0\<rparr>) fourPoints\<rparr>"
  by (simp add: labelledState_def clusteringEffect_def runClustering_def sampleKMeans_def
      initialState_def fourPoints_def mapi_def index_read_def upt_rec)

theorem failed_run_fallback_witness:
  "clusteringEffect id sampleKMeans sampleDBSCAN (labelledState\<lparr>clusters := 0\<rparr>) =
     labelledState\<lparr>clusters := 0,
       error := Some ''Error running clustering algorithm: K should be a positive integer smaller than the number of points'',
       clusteredData := fourPoints\<rparr>"
proof -
  let ?st = "labelledState\<lparr>clusters := 0\<rparr>"
  have raw: "rawData ?st = fourPoints"
    by (simp add: labelledState_eq)
  have ne: "rawData ?st \<noteq> []"
    by (simp add: raw fourPoints_def)
  have fails: "(algorithm ?st = ''kmeans'' \<and>
      sampleKMeans (map (\<lambda>d. [x d, y d]) (rawData ?st)) (clusters ?st) =
        Inl ''K should be a positive integer smaller than the number of points'') \<or>
     (algorithm ?st = ''dbscan'' \<and>
      sampleDBSCAN (map (\<lambda>d. [x d, y d]) (rawData ?st)) (epsilon ?st) (minPoints ?st) =
        Inl ''K should be a positive integer smaller than the number of points'')"
    by (simp add: labelledState_eq initialState_def sampleKMeans_def)
  from failed_run_fallback [where st = ?st and KMeans = sampleKMeans and DBSCAN_run = sampleDBSCAN
      and message = id
      and err = "''K should be a positive integer smaller than the number of points''",
      OF ne fails]
  show ?thesis
    by (simp add: raw)
qed

text \<open>
  C4, as stated, fails: after a successful run with \<open>k = 2\<close> the four points are
  displayed with labels; the next run, with \<open>k = 0\<close>, fails, and the displayed data is
  then the unlabelled input, not what it was before the failed run.
\<close>

theorem failed_run_keeps_display_counterexample:
  "clusteredData labelledState = map (\<lambda>d. d\<lparr>cluster := Some 0\<rparr>) fourPoints \<and>
   error (clusteringEffect id sampleKMeans sampleDBSCAN (labelledState\<lparr>clusters := 0\<rparr>)) \<noteq> None \<and>
   clusteredData (clusteringEffect id sampleKMeans sampleDBSCAN (labelledState\<lparr>clusters := 0\<rparr>)) =
     fourPoints \<and>
   clusteredData (clusteringEffect id sampleKMeans sampleDBSCAN (labelledState\<lparr>clusters := 0\<rparr>)) \<noteq>
     clusteredData labelledState"
  by (simp add: labelledState_eq clusteringEffect_def runClustering_def sampleKMeans_def
      catchError_def initialState_def fourPoints_def)

section \<open>Properties of the clustering engine of the specification\<close>

subsection \<open>DBSCAN\<close>

text \<open>
  C3. DBSCAN fails with \<open>InvalidParameter\<close> when \<open>epsilon \<le> 0\<close> or \<open>minPoints < 1\<close>,
  whatever the points: the result is the error and no assignment sequence.
\<close>

theorem runDbscan_invalid:
  assumes "eps \<le> 0 \<or> minPts < 1"
  shows "runDbscan points eps minPts = Inl InvalidParameter"
  using assms by (simp add: runDbscan_def)

theorem runDbscan_invalid_witness:
  "runDbscan [(0, 0), (0, 1)] 0 2 = Inl InvalidParameter \<and>
   runDbscan [(0, 0), (0, 1)] 2 0 = Inl InvalidParameter"
proof -
  have "(0::real) \<le> 0 \<or> (2::int) < 1" and "(2::real) \<le> 0 \<or> (0::int) < 1"
    by simp_all
  then show ?thesis
    using runDbscan_invalid [of 0 2 "[(0, 0), (0, 1)]"] runDbscan_invalid [of 2 0 "[(0, 0), (0, 1)]"]
    by blast
qed

text \<open>
  C7. For the points (0,0), (0,1), (10,10), (10,11), DBSCAN with \<open>epsilon = 2\<close> and
  \<open>minPoints = 2\<close> gives exactly two clusters: cluster 0 holds the points of indices 0
  and 1, cluster 1 those of indices 2 and 3, and no point is noise.
\<close>

theorem runDbscan_four_points:
  "runDbscan [(0, 0), (0, 1), (10, 10), (10, 11)] 2 2 =
     Inr [Cluster 0, Cluster 0, Cluster 1, Cluster 1]"
  by code_simp

subsection \<open>Every run of DBSCAN gives the same assignments\<close>

lemma reached_empty: "reached points eps minPts {} A = {}"
proof -
  have "i \<in> reached points eps minPts {} A \<Longrightarrow> False" for i
    by (induction rule: reached.induct) auto
  then show ?thesis by blast
qed

lemma reached_border:
  assumes "\<not> corePoint points eps minPts q"
  shows "reached points eps minPts (insert q Q) A = reached points eps minPts Q A"
proof
  show "reached points eps minPts (insert q Q) A \<subseteq> reached points eps minPts Q A"
  proof
    fix i assume "i \<in> reached points eps minPts (insert q Q) A"
    then show "i \<in> reached points eps minPts Q A"
    proof (induction rule: reached.induct)
      case (from_queue q' i)
      with assms have "q' \<in> Q" by auto
      with from_queue show ?case by (auto intro: reached.from_queue)
    next
      case (from_reached j i)
      then show ?case by (auto intro: reached.from_reached)
    qed
  qed
next
  show "reached points eps minPts Q A \<subseteq> reached points eps minPts (insert q Q) A"
  proof
    fix i assume "i \<in> reached points eps minPts Q A"
    then show "i \<in> reached points eps minPts (insert q Q) A"
      by (induction rule: reached.induct)
        (auto intro: reached.from_queue reached.from_reached)
  qed
qed

lemma reached_core:
  assumes core: "corePoint points eps minPts q"
    and S: "S = {r \<in> set (neighborhood points eps q). r \<notin> A}"
  shows "reached points eps minPts (insert q Q) A =
         S \<union> reached points eps minPts (Q \<union> S) (A \<union> S)"
proof
  show "reached points eps minPts (insert q Q) A \<subseteq> S \<union> reached points eps minPts (Q \<union> S) (A \<union> S)"
  proof
    fix i assume "i \<in> reached points eps minPts (insert q Q) A"
    then show "i \<in> S \<union> reached points eps minPts (Q \<union> S) (A \<union> S)"
    proof (induction rule: reached.induct)
      case (from_queue q' i)
      show ?case
      proof (cases "i \<in> S")
        case True
        then show ?thesis by simp
      next
        case False
        with from_queue S have "q' \<in> Q" by auto
        with from_queue False have "i \<in> reached points eps minPts (Q \<union> S) (A \<union> S)"
          by (auto intro: reached.from_queue)
        then show ?thesis by simp
      qed
    next
      case (from_reached j i)
      show ?case
      proof (cases "i \<in> S")
        case True
        then show ?thesis by simp
      next
        case False
        from from_reached.IH have "i \<in> reached points eps minPts (Q \<union> S) (A \<union> S)"
        proof
          assume "j \<in> S"
          with from_reached False show ?thesis
            by (auto intro: reached.from_queue)
        next
          assume "j \<in> reached points eps minPts (Q \<union> S) (A \<union> S)"
          with from_reached False show ?thesis
            by (auto intro: reached.from_reached)
        qed
        then show ?thesis by simp
      qed
    qed
  qed
next
  have S_sub: "S \<subseteq> reached points eps minPts (insert q Q) A"
    using core S by (auto intro: reached.from_queue)
  have "i \<in> reached points eps minPts (insert q Q) A"
    if "i \<in> reached points eps minPts (Q \<union> S) (A \<union> S)" for i
    using that
  proof (induction rule: reached.induct)
    case (from_queue q' i)
    from from_queue(1) show ?case
    proof
      assume "q' \<in> Q"
      with from_queue show ?thesis by (auto intro: reached.from_queue)
    next
      assume "q' \<in> S"
      with S_sub have "q' \<in> reached points eps minPts (insert q Q) A" by blast
      with from_queue show ?thesis by (auto intro: reached.from_reached)
    qed
  next
    case (from_reached j i)
    then show ?case by (auto intro: reached.from_reached)
  qed
  with S_sub show "S \<union> reached points eps minPts (Q \<union> S) (A \<union> S) \<subseteq> reached points eps minPts (insert q Q) A"
    by blast
qed

lemma expandsTo_result:
  "expandsTo points eps minPts c queue marks result \<Longrightarrow>
     result = (\<lambda>i. if i \<in> reached points eps minPts (set queue) {i. inCluster (marks i)}
                    then Assigned c else marks i)"
proof (induction rule: expandsTo.induct)
  case (finished marks)
  then show ?case by (simp add: reached_empty)
next
  case (border q queue marks result)
  then show ?case by (simp add: reached_border)
next
  case (core q new marks queue result)
  let ?A = "{i. inCluster (marks i)}"
  have S: "set new = {r \<in> set (neighborhood points eps q). r \<notin> ?A}"
    using core.hyps(3) by simp
  have A': "{i. inCluster (assignAll c new marks i)} = ?A \<union> set new"
    by (auto simp: assignAll_apply)
  have "reached points eps minPts (set (q # queue)) ?A =
        set new \<union> reached points eps minPts (set queue \<union> set new) (?A \<union> set new)"
    using reached_core [OF core.hyps(1) S, of "set queue"] by simp
  with core.IH A' show ?case
    by (auto simp: assignAll_apply fun_eq_iff)
qed

lemma expandsTo_unique:
  assumes "expandsTo points eps minPts c queue marks r1"
    and "expandsTo points eps minPts c queue marks r2"
  shows "r1 = r2"
  using expandsTo_result [OF assms(1)] expandsTo_result [OF assms(2)] by simp

lemma scansTo_unique:
  "scansTo points eps minPts ps c marks r1 \<Longrightarrow>
   scansTo points eps minPts ps c marks r2 \<Longrightarrow> r1 = r2"
proof (induction arbitrary: r2 rule: scansTo.induct)
  case (scanned c marks)
  then show ?case by (auto elim: scansTo.cases)
next
  case (visited marks p ps c result)
  from visited.prems visited.hyps(1) have "scansTo points eps minPts ps c marks r2"
    by (auto elim: scansTo.cases)
  then show ?case by (rule visited.IH)
next
  case (noise marks p ps c result)
  from noise.prems noise.hyps(1,2)
  have "scansTo points eps minPts ps c (marks(p := TentativeNoise)) r2"
    by (auto elim: scansTo.cases)
  then show ?case by (rule noise.IH)
next
  case (cluster marks p c marks' ps result)
  from cluster.prems cluster.hyps(1,2) obtain m where
    m: "expandsTo points eps minPts c [p] (marks(p := Assigned c)) m"
      "scansTo points eps minPts ps (c + 1) m r2"
    by (auto elim: scansTo.cases)
  from cluster.hyps(3) m(1) have "marks' = m" by (rule expandsTo_unique)
  with m(2) show ?case by (auto intro: cluster.IH)
qed

lemma distinct_neighborhood: "distinct (neighborhood points eps q)"
  by (simp add: neighborhood_def)

lemma expand_expandsTo:
  "expandsTo points eps minPts c queue marks (expand points eps minPts c queue marks)"
proof (induction points eps minPts c queue marks rule: expand.induct)
  case (1 points eps minPts c marks)
  show ?case by (simp add: expandsTo.finished)
next
  case (2 points eps minPts c q queue marks)
  show ?case
  proof (cases "corePoint points eps minPts q")
    case True
    let ?new = "filter (\<lambda>r. \<not> inCluster (marks r)) (neighborhood points eps q)"
    have "expandsTo points eps minPts c (queue @ ?new) (assignAll c ?new marks)
            (expand points eps minPts c (queue @ ?new) (assignAll c ?new marks))"
      using "2.IH"(1) [OF True refl] .
    moreover have "distinct ?new"
      by (simp add: distinct_neighborhood)
    moreover have "set ?new = {r \<in> set (neighborhood points eps q). \<not> inCluster (marks r)}"
      by auto
    ultimately have "expandsTo points eps minPts c (q # queue) marks
        (expand points eps minPts c (queue @ ?new) (assignAll c ?new marks))"
      using True by (auto intro: expandsTo.core)
    with True show ?thesis by (simp add: Let_def)
  next
    case False
    with "2.IH"(2) [OF False] show ?thesis
      by (simp add: expandsTo.border)
  qed
qed

lemma scan_scansTo:
  "scansTo points eps minPts ps c marks (scan points eps minPts ps c marks)"
proof (induction points eps minPts ps c marks rule: scan.induct)
  case (1 points eps minPts c marks)
  show ?case by (simp add: scansTo.scanned)
next
  case (2 points eps minPts p ps c marks)
  show ?case
  proof (cases "marks p \<noteq> Unvisited")
    case True
    then have "scansTo points eps minPts ps c marks (scan points eps minPts ps c marks)"
      by (rule "2.IH"(1))
    with True have "scansTo points eps minPts (p # ps) c marks (scan points eps minPts ps c marks)"
      by (rule scansTo.visited)
    moreover from True have "scan points eps minPts (p # ps) c marks = scan points eps minPts ps c marks"
      by simp
    ultimately show ?thesis by simp
  next
    case unv: False
    then have unv': "marks p = Unvisited" by simp
    show ?thesis
    proof (cases "corePoint points eps minPts p")
      case False
      have "scansTo points eps minPts ps c (marks(p := TentativeNoise))
              (scan points eps minPts ps c (marks(p := TentativeNoise)))"
        using unv False by (rule "2.IH"(2))
      with unv' False have "scansTo points eps minPts (p # ps) c marks
              (scan points eps minPts ps c (marks(p := TentativeNoise)))"
        by (rule scansTo.noise)
      moreover from unv' False have "scan points eps minPts (p # ps) c marks =
          scan points eps minPts ps c (marks(p := TentativeNoise))"
        by simp
      ultimately show ?thesis by simp
    next
      case True
      let ?m = "expand points eps minPts c [p] (marks(p := Assigned c))"
      have "\<not> \<not> corePoint points eps minPts p"
        using True by simp
      with unv have "scansTo points eps minPts ps (c + 1) ?m (scan points eps minPts ps (c + 1) ?m)"
        by (rule "2.IH"(3))
      with unv' True expand_expandsTo [of points eps minPts c "[p]" "marks(p := Assigned c)"]
      have "scansTo points eps minPts (p # ps) c marks (scan points eps minPts ps (c + 1) ?m)"
        by (rule scansTo.cluster)
      moreover from unv' True have "scan points eps minPts (p # ps) c marks =
          scan points eps minPts ps (c + 1) ?m"
        by simp
      ultimately show ?thesis by simp
    qed
  qed
qed

lemma runDbscan_dbscanRun:
  assumes "runDbscan points eps minPts = Inr labels"
  shows "dbscanRun points eps minPts labels"
proof -
  from assms have valid: "0 < eps" "1 \<le> minPts"
    by (auto simp: runDbscan_def split: if_splits)
  with assms have "labels = map (\<lambda>i. terminalLabel
      (scan points eps minPts [0..<length points] 0 (\<lambda>i. Unvisited) i)) [0..<length points]"
    by (auto simp: runDbscan_def split: if_splits)
  with valid scan_scansTo [of points eps minPts "[0..<length points]" 0 "\<lambda>i. Unvisited"]
  show ?thesis
    by (auto intro: dbscanRun.intros)
qed

text \<open>
  C6. DBSCAN is deterministic: on the same points in the same order, with the same valid
  \<open>epsilon\<close> and \<open>minPoints\<close>, every run returns the same assignment sequence. A run
  exists, and any two runs agree, in whatever order each of them takes the members of a
  neighborhood.
\<close>

theorem dbscanRun_deterministic:
  assumes "0 < eps" and "1 \<le> minPts"
  shows "\<exists>!labels. dbscanRun points eps minPts labels"
proof
  let ?marks = "scan points eps minPts [0..<length points] 0 (\<lambda>i. Unvisited)"
  show "dbscanRun points eps minPts (map (\<lambda>i. terminalLabel (?marks i)) [0..<length points])"
    using assms scan_scansTo by (auto intro: dbscanRun.intros)
next
  fix labels
  let ?marks = "scan points eps minPts [0..<length points] 0 (\<lambda>i. Unvisited)"
  assume "dbscanRun points eps minPts labels"
  then obtain marks where
    m: "scansTo points eps minPts [0..<length points] 0 (\<lambda>i. Unvisited) marks"
      "labels = map (\<lambda>i. terminalLabel (marks i)) [0..<length points]"
    by (auto elim: dbscanRun.cases)
  from m(1) scan_scansTo have "marks = ?marks"
    by (rule scansTo_unique)
  with m(2) show "labels = map (\<lambda>i. terminalLabel (?marks i)) [0..<length points]"
    by simp
qed


theorem dbscanRun_deterministic_witness:
  "\<exists>!labels. dbscanRun [(0, 0), (0, 1), (10, 10), (10, 11)] 2 2 labels"
proof -
  have "(0::real) < 2" and "(1::int) \<le> 2"
    by simp_all
  then show ?thesis
    by (rule dbscanRun_deterministic)
qed

subsection \<open>K-means\<close>

lemma length_without_nth:
  "j < length xs \<Longrightarrow> length (take j xs @ drop (Suc j) xs) = length xs - 1"
  by auto

lemma length_chooseDistinct:
  "length (chooseDistinct draw seed pool k) = min k (length pool)"
proof (induction draw seed pool k rule: chooseDistinct.induct)
  case (3 draw seed a as k)
  obtain seed' r where d: "draw seed (length (a # as)) = (seed', r)"
    by (cases "draw seed (length (a # as))")
  let ?j = "r mod length (a # as)"
  have "?j < length (a # as)"
    by simp
  then have "length (take ?j (a # as) @ drop (Suc ?j) (a # as)) = length (a # as) - 1"
    by (rule length_without_nth)
  then have "length (chooseDistinct draw seed' (take ?j (a # as) @ drop (Suc ?j) (a # as)) k) =
      min k (length as)"
    using "3.IH" [OF d [symmetric]] by simp
  with d show ?case
    by simp
qed simp_all

lemma nearestFrom_bound:
  "best < j \<Longrightarrow> nearestFrom p cs j best bestCentroid < j + length cs"
proof (induction cs arbitrary: j best bestCentroid)
  case Nil
  then show ?case by simp
next
  case (Cons c cs)
  have "nearestFrom p cs (Suc j) j c < Suc j + length cs"
    by (rule Cons.IH) simp
  moreover have "nearestFrom p cs (Suc j) best bestCentroid < Suc j + length cs"
    by (rule Cons.IH) (use Cons.prems in simp)
  ultimately show ?case
    by simp
qed

lemma nearestCentroid_bound:
  "centroids \<noteq> [] \<Longrightarrow> nearestCentroid centroids p < length centroids"
proof (cases centroids)
  case (Cons c cs)
  have "nearestFrom p cs 1 0 c < 1 + length cs"
    by (rule nearestFrom_bound) simp
  with Cons show ?thesis
    by (simp add: nearestCentroid_def)
qed simp

lemma length_updateStep: "length (updateStep points labels centroids) = length centroids"
  by (simp add: updateStep_def)

lemma assignmentStep_labels:
  assumes "centroids \<noteq> []"
  shows "length (assignmentStep points centroids) = length points \<and>
         (\<forall>l\<in>set (assignmentStep points centroids). l < length centroids)"
  using assms by (auto simp: assignmentStep_def nearestCentroid_bound)

lemma lloyd_labels:
  "centroids \<noteq> [] \<Longrightarrow>
     length (lloyd n points centroids previous) = length points \<and>
     (\<forall>l\<in>set (lloyd n points centroids previous). l < length centroids)"
proof (induction n arbitrary: centroids previous)
  case 0
  then show ?case
    using assignmentStep_labels by simp
next
  case (Suc n)
  let ?labels = "assignmentStep points centroids"
  let ?centroids' = "updateStep points ?labels centroids"
  have len: "length ?centroids' = length centroids"
    by (rule length_updateStep)
  with Suc.prems have "?centroids' \<noteq> []"
    by (metis length_0_conv)
  from Suc.IH [OF this, of "Some ?labels"] len
  have rec: "length (lloyd n points ?centroids' (Some ?labels)) = length points \<and>
     (\<forall>l\<in>set (lloyd n points ?centroids' (Some ?labels)). l < length centroids)"
    by simp
  show ?case
  proof (cases "converged previous ?labels centroids ?centroids'")
    case True
    with assignmentStep_labels [OF Suc.prems, of points] show ?thesis
      by (simp add: Let_def)
  next
    case False
    with rec show ?thesis
      by (simp add: Let_def)
  qed
qed

text \<open>
  C8. For every non-empty sequence of \<open>n\<close> points and every \<open>k\<close> with \<open>1 \<le> k \<le> n\<close>,
  K-means returns, and what it returns for a given seed is one sequence (a second run
  with the same seed returns the same one): it has exactly \<open>n\<close> assignments, each of
  them a cluster index in \<open>[0, k)\<close>.
\<close>

theorem runKMeans_labels:
  assumes "points \<noteq> []" and "1 \<le> k" and "k \<le> int (length points)"
  shows "\<exists>!labels. runKMeans draw seed points k = Inr labels \<and>
           length labels = length points \<and>
           (\<forall>a\<in>set labels. \<exists>c. a = Cluster c \<and> int c < k)"
proof -
  let ?centroids = "chooseDistinct draw seed points (nat k)"
  let ?labels = "lloyd (maxIterations - 1) points ?centroids None"
  have "length ?centroids = nat k"
    using assms by (simp add: length_chooseDistinct)
  moreover from this assms(2) have "?centroids \<noteq> []"
    by auto
  ultimately have "length ?labels = length points \<and> (\<forall>l\<in>set ?labels. l < nat k)"
    using lloyd_labels [of ?centroids "maxIterations - 1" points None] by simp
  then have "length (map Cluster ?labels) = length points \<and>
      (\<forall>a\<in>set (map Cluster ?labels). \<exists>c. a = Cluster c \<and> int c < k)"
    using assms(2) by auto
  moreover have "runKMeans draw seed points k = Inr (map Cluster ?labels)"
    using assms by (simp add: runKMeans_def)
  ultimately show ?thesis
    by auto
qed

theorem runKMeans_labels_witness:
  "\<exists>!labels. runKMeans sampleDraw 0 [(0, 0), (0, 1), (10, 10), (10, 11)] 2 = Inr labels \<and>
     length labels = 4 \<and> (\<forall>a\<in>set labels. \<exists>c. a = Cluster c \<and> int c < 2)"
proof -
  have "[(0, 0), (0, 1), (10, 10), (10, 11)] \<noteq> ([]::Point list)"
    and "(1::int) \<le> 2"
    and "(2::int) \<le> int (length [(0::real, 0::real), (0, 1), (10, 10), (10, 11)])"
    by simp_all
  from runKMeans_labels [OF this, of sampleDraw 0] show ?thesis
    by (simp add: numeral_eq_Suc)
qed



end
